theory Spec2Isabelle
  imports Main "HOL-Library.Sublist"
begin

section \<open>Strings and numbers of the host language\<close>

text \<open>
  A JavaScript string is modelled as a \<^typ>\<open>string\<close>: the list of the bytes of its
  UTF-8 encoding. A string is truthy when it is not empty; \<open>null\<close> and \<open>undefined\<close>
  are \<^term>\<open>None\<close> of an option type. The numbers that reach the query builder come
  from the option lists of the two select boxes, so they are modelled as integers;
  \<open>string_of_int\<close> is their decimal form, which is what JavaScript prints for an
  integer of magnitude below \<open>10^21\<close>. Fractions and larger magnitudes are outside this
  model.
\<close>

abbreviation (input) APOS :: char where
  "APOS \<equiv> CHR 0x27"

definition truthy :: "string \<Rightarrow> bool" where
  "truthy s \<longleftrightarrow> s \<noteq> []"

definition digit_char :: "nat \<Rightarrow> char" where
  "digit_char d = char_of (48 + d)"

fun string_of_nat :: "nat \<Rightarrow> string" where
  "string_of_nat n =
     (if n < 10 then [digit_char n]
      else string_of_nat (n div 10) @ [digit_char (n mod 10)])"

declare string_of_nat.simps [simp del]

definition string_of_int :: "int \<Rightarrow> string" where
  \<comment> \<open>\<open>String(n)\<close> and \<open>`${n}`\<close> on an integral number\<close>
  "string_of_int i =
     (if i < 0 then CHR ''-'' # string_of_nat (nat (- i)) else string_of_nat (nat i))"

fun join :: "string \<Rightarrow> string list \<Rightarrow> string" where
  \<comment> \<open>\<open>Array.prototype.join\<close>\<close>
  "join sep [] = []"
| "join sep [x] = x"
| "join sep (x # y # ys) = x @ sep @ join sep (y # ys)"

section \<open>The query builder of \<open>fetchWorkflows\<close>\<close>

datatype direction = ascending | descending

record SortConfig =
  key :: "string option"
  direction :: direction

definition DATAVERSE_URL :: string where
  "DATAVERSE_URL = ''https://wecare-ii.crm5.dynamics.com/api/data/v9.2/workflows''"

definition PAGE_SIZE :: nat where
  "PAGE_SIZE = 50"

definition replace_quotes :: "string \<Rightarrow> string" where
  \<comment> \<open>\<open>searchTerm.replace(/'/g, "''")\<close>\<close>
  "replace_quotes s = concat (map (\<lambda>c. if c = APOS then [APOS, APOS] else [c]) s)"

definition search_clause :: "string \<Rightarrow> string" where
  "search_clause searchTerm =
     (let sanitizedSearch = replace_quotes searchTerm
      in ''(contains(name, '' @ [APOS] @ sanitizedSearch @ [APOS]
         @ '') or contains(uniquename, '' @ [APOS] @ sanitizedSearch @ [APOS] @ ''))'')"

definition filterClauses :: "string \<Rightarrow> int option \<Rightarrow> int option \<Rightarrow> string list" where
  \<comment> \<open>the array \<open>filterClauses\<close> after the three conditional pushes, in their order\<close>
  "filterClauses searchTerm category status =
     (case status of None \<Rightarrow> [] | Some st \<Rightarrow> [''statecode eq '' @ string_of_int st])
     @ (if truthy searchTerm then [search_clause searchTerm] else [])
     @ (case category of
          None \<Rightarrow> []
        | Some c \<Rightarrow> if c \<ge> 0 then [''category eq '' @ string_of_int c] else [])"

definition orderby :: "SortConfig \<Rightarrow> string" where
  \<comment> \<open>the value appended under \<open>$orderby\<close>; \<open>if (sortConfig.key)\<close> tests truthiness\<close>
  "orderby sortConfig =
     (case key sortConfig of
        None \<Rightarrow> ''modifiedon desc''
      | Some k \<Rightarrow>
          if truthy k
          then k @ '' '' @ (if direction sortConfig = ascending then ''asc'' else ''desc'')
          else ''modifiedon desc'')"

definition queryParams ::
  "SortConfig \<Rightarrow> string \<Rightarrow> int option \<Rightarrow> int option \<Rightarrow> (string \<times> string) list" where
  \<comment> \<open>the entries of the \<open>URLSearchParams\<close> object, in the order of the appends\<close>
  "queryParams sortConfig searchTerm category status =
     [(''$top'', string_of_nat PAGE_SIZE), (''$count'', ''true'')]
     @ (let cls = filterClauses searchTerm category status
        in if length cls > 0 then [(''$filter'', join '' and '' cls)] else [])
     @ [(''$orderby'', orderby sortConfig)]"

text \<open>
  \<open>URLSearchParams.toString\<close> is the form-urlencoded serialiser: letters, digits and
  \<open>* - . _\<close> stay, a space becomes \<open>+\<close>, every other byte becomes \<open>%XX\<close>.
\<close>

definition hex_digit :: "nat \<Rightarrow> char" where
  "hex_digit d = (if d < 10 then char_of (48 + d) else char_of (55 + d))"

definition form_encode_char :: "char \<Rightarrow> string" where
  "form_encode_char c =
     (let n = of_char c :: nat
      in if (48 \<le> n \<and> n \<le> 57) \<or> (65 \<le> n \<and> n \<le> 90) \<or> (97 \<le> n \<and> n \<le> 122)
            \<or> n = 42 \<or> n = 45 \<or> n = 46 \<or> n = 95 then [c]
         else if n = 32 then ''+''
         else [CHR ''%'', hex_digit (n div 16), hex_digit (n mod 16)])"

definition form_encode :: "string \<Rightarrow> string" where
  "form_encode s = concat (map form_encode_char s)"

definition URLSearchParams_toString :: "(string \<times> string) list \<Rightarrow> string" where
  "URLSearchParams_toString ps =
     join ''&'' (map (\<lambda>(k, v). form_encode k @ ''='' @ form_encode v) ps)"

definition fetchUrl ::
  "SortConfig \<Rightarrow> string \<Rightarrow> int option \<Rightarrow> int option \<Rightarrow> string option \<Rightarrow> string" where
  \<comment> \<open>\<open>if (url) fetchUrl = url; else\<close> the address built from the parameters\<close>
  "fetchUrl sortConfig searchTerm category status url =
     (let built = DATAVERSE_URL @ ''?''
            @ URLSearchParams_toString (queryParams sortConfig searchTerm category status)
      in case url of
           None \<Rightarrow> built
         | Some u \<Rightarrow> if truthy u then u else built)"

text \<open>
  The reading of a string literal of the query language, used to state what the escaping
  achieves: after the opening quote, two quotes in a row stand for one quote character and
  a single quote closes the literal. The result is the text the literal denotes and the
  input that follows the closing quote; an unterminated literal has no reading.
\<close>

fun read_literal :: "string \<Rightarrow> (string \<times> string) option" where
  "read_literal [] = None"
| "read_literal (c # cs) =
     (if c = APOS then
        (case cs of
           [] \<Rightarrow> Some ([], [])
         | d # ds \<Rightarrow>
             if d = APOS then map_option (apfst ((#) APOS)) (read_literal ds)
             else Some ([], cs))
      else map_option (apfst ((#) c)) (read_literal cs))"

section \<open>JSON texts\<close>

text \<open>
  \<open>JSON.parse\<close> belongs to the platform. It is modelled by a scanner that turns the text
  into tokens, one character at a time, and a push-down reader of the tokens. A number
  keeps its literal text. An escape \<open>\uXXXX\<close> contributes the UTF-8 bytes of its
  character; a high surrogate waits for the escape that follows it, and when that is a low
  surrogate the two give the four bytes of the one character they denote. A surrogate
  that stays alone has no UTF-8 form and is written in the three-byte pattern of its code
  unit. The value of a member written twice is the one written last, as in the object
  that \<open>JSON.parse\<close> builds. \<^term>\<open>None\<close> stands for the \<open>SyntaxError\<close> that is
  thrown.
\<close>

datatype json =
    JNull
  | JBool bool
  | JNumber string
  | JString string
  | JArray "json list"
  | JObject "(string \<times> json) list"

datatype jtoken =
    TLBrace | TRBrace | TLBracket | TRBracket | TColon | TComma
  | TString string | TNumber string | TTrue | TFalse | TNull

datatype lexmode =
    Idle
  | InWord string
  | InString string "nat option"
  | InEscape string "nat option"
  | InUnicode string "nat option" nat nat

definition is_json_ws :: "char \<Rightarrow> bool" where
  "is_json_ws c \<longleftrightarrow> c = CHR 0x20 \<or> c = CHR 0x09 \<or> c = CHR 0x0A \<or> c = CHR 0x0D"

definition is_digit :: "char \<Rightarrow> bool" where
  "is_digit c \<longleftrightarrow> (let n = of_char c :: nat in 48 \<le> n \<and> n \<le> 57)"

definition is_word_char :: "char \<Rightarrow> bool" where
  "is_word_char c \<longleftrightarrow>
     (let n = of_char c :: nat
      in (48 \<le> n \<and> n \<le> 57) \<or> (65 \<le> n \<and> n \<le> 90) \<or> (97 \<le> n \<and> n \<le> 122)
         \<or> c = CHR ''+'' \<or> c = CHR ''-'' \<or> c = CHR ''.'')"

definition hex_value :: "char \<Rightarrow> nat option" where
  "hex_value c =
     (let n = of_char c :: nat
      in if 48 \<le> n \<and> n \<le> 57 then Some (n - 48)
         else if 65 \<le> n \<and> n \<le> 70 then Some (n - 55)
         else if 97 \<le> n \<and> n \<le> 102 then Some (n - 87)
         else None)"

definition utf8_of_code :: "nat \<Rightarrow> string" where
  "utf8_of_code n =
     (if n < 128 then [char_of n]
      else if n < 2048 then [char_of (192 + n div 64), char_of (128 + n mod 64)]
      else if n < 65536
      then [char_of (224 + n div 4096), char_of (128 + (n div 64) mod 64),
            char_of (128 + n mod 64)]
      else [char_of (240 + n div 262144), char_of (128 + (n div 4096) mod 64),
            char_of (128 + (n div 64) mod 64), char_of (128 + n mod 64)])"

definition is_high_surrogate :: "nat \<Rightarrow> bool" where
  "is_high_surrogate u \<longleftrightarrow> 55296 \<le> u \<and> u \<le> 56319"

definition is_low_surrogate :: "nat \<Rightarrow> bool" where
  "is_low_surrogate u \<longleftrightarrow> 56320 \<le> u \<and> u \<le> 57343"

definition flush :: "nat option \<Rightarrow> string \<Rightarrow> string" where
  \<comment> \<open>a waiting high surrogate that stayed alone joins the text read so far (reversed)\<close>
  "flush pend acc = (case pend of None \<Rightarrow> acc | Some hi \<Rightarrow> rev (utf8_of_code hi) @ acc)"

definition unit_done :: "string \<Rightarrow> nat option \<Rightarrow> nat \<Rightarrow> lexmode" where
  \<comment> \<open>the four digits of an escape gave the code unit \<open>u\<close>\<close>
  "unit_done acc pend u =
     (case pend of
        Some hi \<Rightarrow>
          if is_low_surrogate u
          then InString (rev (utf8_of_code (65536 + (hi - 55296) * 1024 + (u - 56320))) @ acc)
                 None
          else if is_high_surrogate u then InString (flush pend acc) (Some u)
          else InString (rev (utf8_of_code u) @ flush pend acc) None
      | None \<Rightarrow>
          if is_high_surrogate u then InString acc (Some u)
          else InString (rev (utf8_of_code u) @ acc) None)"

definition is_json_number :: "string \<Rightarrow> bool" where
  \<comment> \<open>\<open>-? (0 | [1-9][0-9]*) (. [0-9]+)? ([eE] [+-]? [0-9]+)?\<close>\<close>
  "is_json_number w =
     (let w1 = (case w of [] \<Rightarrow> [] | c # r \<Rightarrow> if c = CHR ''-'' then r else w);
          ip = takeWhile is_digit w1;
          r1 = dropWhile is_digit w1;
          int_ok = (ip \<noteq> [] \<and> (ip = ''0'' \<or> hd ip \<noteq> CHR ''0''));
          fp = (case r1 of [] \<Rightarrow> [] | c # r \<Rightarrow> if c = CHR ''.'' then takeWhile is_digit r else []);
          r2 = (case r1 of [] \<Rightarrow> [] | c # r \<Rightarrow> if c = CHR ''.'' then dropWhile is_digit r else r1);
          frac_ok = (case r1 of [] \<Rightarrow> True | c # r \<Rightarrow> if c = CHR ''.'' then fp \<noteq> [] else True);
          exp_ok = (case r2 of
                      [] \<Rightarrow> True
                    | c # r \<Rightarrow>
                        if c = CHR ''e'' \<or> c = CHR ''E'' then
                          (let ds = (case r of
                                       [] \<Rightarrow> []
                                     | d # r' \<Rightarrow> if d = CHR ''+'' \<or> d = CHR ''-'' then r' else r)
                           in ds \<noteq> [] \<and> list_all is_digit ds)
                        else False)
      in int_ok \<and> frac_ok \<and> exp_ok)"

definition word_token :: "string \<Rightarrow> jtoken option" where
  "word_token w =
     (if w = ''true'' then Some TTrue
      else if w = ''false'' then Some TFalse
      else if w = ''null'' then Some TNull
      else if is_json_number w then Some (TNumber w)
      else None)"

definition punctuation :: "char \<Rightarrow> jtoken option" where
  "punctuation c =
     (if c = CHR ''{'' then Some TLBrace
      else if c = CHR ''}'' then Some TRBrace
      else if c = CHR ''['' then Some TLBracket
      else if c = CHR '']'' then Some TRBracket
      else if c = CHR '':'' then Some TColon
      else if c = CHR '','' then Some TComma
      else None)"

definition lex_start :: "char \<Rightarrow> (lexmode \<times> jtoken list) option" where
  \<comment> \<open>a character met between two tokens\<close>
  "lex_start c =
     (if is_json_ws c then Some (Idle, [])
      else if c = CHR 0x22 then Some (InString [] None, [])
      else case punctuation c of
             Some t \<Rightarrow> Some (Idle, [t])
           | None \<Rightarrow> if is_word_char c then Some (InWord [c], []) else None)"

fun lex_step :: "lexmode \<Rightarrow> char \<Rightarrow> (lexmode \<times> jtoken list) option" where
  "lex_step Idle c = lex_start c"
| "lex_step (InWord w) c =
     (if is_word_char c then Some (InWord (c # w), [])
      else case word_token (rev w) of
             None \<Rightarrow> None
           | Some t \<Rightarrow> map_option (\<lambda>(m, ts). (m, t # ts)) (lex_start c))"
| "lex_step (InString acc pend) c =
     (if c = CHR 0x5C then Some (InEscape acc pend, [])
      else if c = CHR 0x22 then Some (Idle, [TString (rev (flush pend acc))])
      else if (of_char c :: nat) < 32 then None
      else Some (InString (c # flush pend acc) None, []))"
| "lex_step (InEscape acc pend) c =
     (if c = CHR ''u'' then Some (InUnicode acc pend 0 0, [])
      else if c = CHR 0x22 \<or> c = CHR 0x5C \<or> c = CHR ''/''
      then Some (InString (c # flush pend acc) None, [])
      else if c = CHR ''b'' then Some (InString (CHR 0x08 # flush pend acc) None, [])
      else if c = CHR ''f'' then Some (InString (CHR 0x0C # flush pend acc) None, [])
      else if c = CHR ''n'' then Some (InString (CHR 0x0A # flush pend acc) None, [])
      else if c = CHR ''r'' then Some (InString (CHR 0x0D # flush pend acc) None, [])
      else if c = CHR ''t'' then Some (InString (CHR 0x09 # flush pend acc) None, [])
      else None)"
| "lex_step (InUnicode acc pend k n) c =
     (case hex_value c of
        None \<Rightarrow> None
      | Some h \<Rightarrow>
          if k = 3 then Some (unit_done acc pend (16 * n + h), [])
          else Some (InUnicode acc pend (Suc k) (16 * n + h), []))"

fun lex :: "lexmode \<Rightarrow> string \<Rightarrow> jtoken list option" where
  "lex Idle [] = Some []"
| "lex (InWord w) [] = map_option (\<lambda>t. [t]) (word_token (rev w))"
| "lex (InString acc pend) [] = None"
| "lex (InEscape acc pend) [] = None"
| "lex (InUnicode acc pend k n) [] = None"
| "lex m (c # cs) =
     (case lex_step m c of
        None \<Rightarrow> None
      | Some (m', ts) \<Rightarrow> map_option ((@) ts) (lex m' cs))"

datatype frame =
    FArray "json list"
  | FKey "(string \<times> json) list" string

datatype pstate =
    PValue "frame list" bool
  | PKey "(string \<times> json) list" "frame list" bool
  | PColon "(string \<times> json) list" string "frame list"
  | PNextA "json list" "frame list"
  | PNextO "(string \<times> json) list" "frame list"
  | PDone json

fun complete :: "json \<Rightarrow> frame list \<Rightarrow> pstate" where
  \<comment> \<open>a finished value goes into the container that is open around it\<close>
  "complete v [] = PDone v"
| "complete v (FArray xs # st) = PNextA (xs @ [v]) st"
| "complete v (FKey fs k # st) = PNextO (fs @ [(k, v)]) st"

fun pstep :: "pstate \<Rightarrow> jtoken \<Rightarrow> pstate option" where
  "pstep (PValue st may_close) t =
     (case t of
        TLBracket \<Rightarrow> Some (PValue (FArray [] # st) True)
      | TRBracket \<Rightarrow>
          (if may_close then
             (case st of FArray [] # r \<Rightarrow> Some (complete (JArray []) r) | _ \<Rightarrow> None)
           else None)
      | TLBrace \<Rightarrow> Some (PKey [] st True)
      | TString s \<Rightarrow> Some (complete (JString s) st)
      | TNumber n \<Rightarrow> Some (complete (JNumber n) st)
      | TTrue \<Rightarrow> Some (complete (JBool True) st)
      | TFalse \<Rightarrow> Some (complete (JBool False) st)
      | TNull \<Rightarrow> Some (complete JNull st)
      | _ \<Rightarrow> None)"
| "pstep (PKey fs st may_close) t =
     (case t of
        TString k \<Rightarrow> Some (PColon fs k st)
      | TRBrace \<Rightarrow> if may_close then Some (complete (JObject fs) st) else None
      | _ \<Rightarrow> None)"
| "pstep (PColon fs k st) t =
     (case t of TColon \<Rightarrow> Some (PValue (FKey fs k # st) False) | _ \<Rightarrow> None)"
| "pstep (PNextA xs st) t =
     (case t of
        TComma \<Rightarrow> Some (PValue (FArray xs # st) False)
      | TRBracket \<Rightarrow> Some (complete (JArray xs) st)
      | _ \<Rightarrow> None)"
| "pstep (PNextO fs st) t =
     (case t of
        TComma \<Rightarrow> Some (PKey fs st False)
      | TRBrace \<Rightarrow> Some (complete (JObject fs) st)
      | _ \<Rightarrow> None)"
| "pstep (PDone v) t = None"

fun parse_tokens :: "pstate \<Rightarrow> jtoken list \<Rightarrow> json option" where
  "parse_tokens (PDone v) [] = Some v"
| "parse_tokens p [] = None"
| "parse_tokens p (t # ts) =
     (case pstep p t of None \<Rightarrow> None | Some p' \<Rightarrow> parse_tokens p' ts)"

definition JSON_parse :: "string \<Rightarrow> json option" where
  "JSON_parse s =
     (case lex Idle s of None \<Rightarrow> None | Some ts \<Rightarrow> parse_tokens (PValue [] False) ts)"

definition get_prop :: "json \<Rightarrow> string \<Rightarrow> json option" where
  \<comment> \<open>\<open>data.k\<close>; \<^term>\<open>None\<close> is \<open>undefined\<close>\<close>
  "get_prop data k = (case data of JObject fs \<Rightarrow> map_of (rev fs) k | _ \<Rightarrow> None)"

definition string_prop :: "json \<Rightarrow> string \<Rightarrow> string option" where
  \<comment> \<open>\<open>typeof data.k === 'string' && data.k\<close>\<close>
  "string_prop data k =
     (case get_prop data k of
        Some (JString s) \<Rightarrow> if truthy s then Some s else None
      | _ \<Rightarrow> None)"

definition is_object :: "json \<Rightarrow> bool" where
  \<comment> \<open>\<open>data && typeof data === 'object'\<close>: an object or an array, not \<open>null\<close>\<close>
  "is_object data = (case data of JObject _ \<Rightarrow> True | JArray _ \<Rightarrow> True | _ \<Rightarrow> False)"

text \<open>
  \<open>String.prototype.trim\<close> removes white space and line terminators at both ends. In
  UTF-8 they are the bytes 09 to 0D and 20, the pair C2 A0 and the triples below.
\<close>

definition ws1 :: "char \<Rightarrow> bool" where
  "ws1 a \<longleftrightarrow> (let n = of_char a :: nat in (9 \<le> n \<and> n \<le> 13) \<or> n = 32)"

definition ws2 :: "char \<Rightarrow> char \<Rightarrow> bool" where
  "ws2 a b \<longleftrightarrow> a = CHR 0xC2 \<and> b = CHR 0xA0"

definition ws3 :: "char \<Rightarrow> char \<Rightarrow> char \<Rightarrow> bool" where
  "ws3 a b c \<longleftrightarrow>
     (let n = of_char c :: nat
      in (a = CHR 0xE1 \<and> b = CHR 0x9A \<and> c = CHR 0x80)
         \<or> (a = CHR 0xE2 \<and> b = CHR 0x80
             \<and> ((128 \<le> n \<and> n \<le> 138) \<or> n = 168 \<or> n = 169 \<or> n = 175))
         \<or> (a = CHR 0xE2 \<and> b = CHR 0x81 \<and> c = CHR 0x9F)
         \<or> (a = CHR 0xE3 \<and> b = CHR 0x80 \<and> c = CHR 0x80)
         \<or> (a = CHR 0xEF \<and> b = CHR 0xBB \<and> c = CHR 0xBF))"

fun strip :: "bool \<Rightarrow> string \<Rightarrow> string" where
  \<comment> \<open>drops the leading white space; the flag says that the bytes come in reverse order\<close>
  "strip r (a # b # c # s) =
     (if ws1 a then strip r (b # c # s)
      else if (if r then ws2 b a else ws2 a b) then strip r (c # s)
      else if (if r then ws3 c b a else ws3 a b c) then strip r s
      else a # b # c # s)"
| "strip r [a, b] =
     (if ws1 a then strip r [b]
      else if (if r then ws2 b a else ws2 a b) then []
      else [a, b])"
| "strip r [a] = (if ws1 a then [] else [a])"
| "strip r [] = []"

definition trim :: "string \<Rightarrow> string" where
  "trim s = rev (strip True (rev (strip False s)))"

section \<open>The credential call \<open>getAuthToken\<close>\<close>

text \<open>
  A call of \<open>fetch\<close> either rejects (the network failed) or answers with a response, of
  which the code reads the \<open>ok\<close> flag, the status and the body text. A thrown value is an
  \<open>Error\<close> with its message, or something else.
\<close>

datatype 'r fetched = Rejected string | Responded 'r

datatype thrown = Error string | NonError

record http_response =
  resp_ok :: bool
  resp_status :: nat
  resp_text :: string

definition token_of_text :: "string \<Rightarrow> string" where
  \<comment> \<open>the part of \<open>getAuthToken\<close> after \<open>response.text()\<close>\<close>
  "token_of_text responseText =
     (case JSON_parse responseText of
        None \<Rightarrow> trim responseText
      | Some data \<Rightarrow>
          if is_object data then
            (case string_prop data ''token'' of
               Some t \<Rightarrow> t
             | None \<Rightarrow>
                 (case string_prop data ''accessToken'' of
                    Some t \<Rightarrow> t
                  | None \<Rightarrow> trim responseText))
          else trim responseText)"

definition getAuthToken :: "http_response fetched \<Rightarrow> thrown + string" where
  "getAuthToken answer =
     (case answer of
        Rejected m \<Rightarrow> Inl (Error m)
      | Responded response \<Rightarrow>
          if \<not> resp_ok response
          then Inl (Error (''HTTP error '' @ string_of_nat (resp_status response)
                 @ '' while fetching token.''))
          else Inr (token_of_text (resp_text response)))"

section \<open>The data call: \<open>getWorkflowsFromUrl\<close> and \<open>fetchWorkflows\<close>\<close>

text \<open>
  A row is whatever JSON value the server sent (the interface \<open>Workflow\<close> admits any
  member). The body of a data response is taken as decoded by \<open>response.json()\<close>: the
  members \<open>value\<close>, \<open>@odata.nextLink\<close> and \<open>@odata.count\<close> when they are present, or
  the message of the error that the decoding throws. The cast \<open>data.value as Workflow[]\<close>
  checks nothing, so a body without \<open>value\<close> gives \<open>undefined\<close> rows, here
  \<^term>\<open>None\<close>. The body text of a failed response is only logged and is left out.
\<close>

type_synonym Workflow = json

record odata_body =
  odata_value :: "Workflow list option"
  odata_nextLink :: "string option"
  odata_count :: "int option"

record data_response =
  data_ok :: bool
  data_status :: nat
  data_json :: "string + odata_body"

record WorkflowsResponse =
  res_workflows :: "Workflow list option"
  res_nextLink :: "string option"
  res_totalCount :: int
  requestUrl :: string

definition getWorkflowsFromUrl ::
  "string \<Rightarrow> string \<Rightarrow> data_response fetched
     \<Rightarrow> thrown + (Workflow list option \<times> string option \<times> int)" where
  \<comment> \<open>the result is the triple \<open>workflows\<close>, \<open>nextLink\<close>, \<open>totalCount\<close>\<close>
  "getWorkflowsFromUrl url token answer =
     (case answer of
        Rejected m \<Rightarrow> Inl (Error m)
      | Responded response \<Rightarrow>
          if \<not> data_ok response
          then Inl (Error (''HTTP error '' @ string_of_nat (data_status response)
                 @ '' while fetching workflows.''))
          else (case data_json response of
                  Inl m \<Rightarrow> Inl (Error m)
                | Inr data \<Rightarrow>
                    Inr (odata_value data,
                         (case odata_nextLink data of
                            None \<Rightarrow> None
                          | Some l \<Rightarrow> if truthy l then Some l else None),
                         (case odata_count data of
                            None \<Rightarrow> 0
                          | Some n \<Rightarrow> if n \<noteq> 0 then n else 0))))"

definition fetchWorkflows ::
  "SortConfig \<Rightarrow> string \<Rightarrow> int option \<Rightarrow> int option \<Rightarrow> string option
     \<Rightarrow> http_response fetched \<Rightarrow> data_response fetched \<Rightarrow> thrown + WorkflowsResponse" where
  \<comment> \<open>the last two arguments are what the two endpoints answer to this call\<close>
  "fetchWorkflows sortConfig searchTerm category status url token_answer data_answer =
     (case getAuthToken token_answer of
        Inl e \<Rightarrow> Inl e
      | Inr token \<Rightarrow>
          (let u = fetchUrl sortConfig searchTerm category status url
           in case getWorkflowsFromUrl u token data_answer of
                Inl e \<Rightarrow> Inl e
              | Inr (ws, nl, tc) \<Rightarrow>
                  Inr \<lparr>res_workflows = ws, res_nextLink = nl, res_totalCount = tc,
                       requestUrl = u\<rparr>))"

section \<open>The controller of \<open>App\<close>\<close>

text \<open>
  The \<open>useState\<close> cells that the fetches and the pagination read or write are the record
  \<open>Cells\<close>. The state of the component holds them twice. Its own fields are the current
  values: what the setters have written so far, a value given directly replacing the
  cell and an updater function applied to the cell as it stands. The field \<open>rendered\<close>
  is the copy that the last render took: the handlers and \<open>fetchPageData\<close> are
  closures of that render and read their variables there. A render brings the copy up to
  date and then runs the effect on \<open>appliedFilters\<close> and \<open>sortConfig\<close> when one of the
  two was set since the render before (\<open>effectDue\<close>). The calls of \<open>fetchPageData\<close>
  that have started and not yet settled are kept in \<open>inFlight\<close>, each with its arguments
  and the \<open>sortConfig\<close> and \<open>appliedFilters\<close> that its closure holds.
\<close>

record Filters =
  search :: string
  category :: "int option"
  status :: "int option"

record request =
  req_url :: "string option"
  req_isNewQuery :: bool
  req_sortConfig :: SortConfig
  req_filters :: Filters

record Cells =
  workflows :: "Workflow list option"
  isLoading :: bool
  error :: "string option"
  sortConfig :: SortConfig
  searchTerm :: string
  selectedCategory :: "int option"
  selectedStatus :: "int option"
  appliedFilters :: Filters
  totalCount :: int
  currentPage :: int
  nextLink :: "string option"
  pageUrlHistory :: "string list"

record AppState = Cells +
  rendered :: Cells
  effectDue :: bool
  inFlight :: "request list"

definition initial_cells :: Cells where
  \<comment> \<open>the initial values of the \<open>useState\<close> calls\<close>
  "initial_cells =
     \<lparr>workflows = Some [], isLoading = True, error = None,
      sortConfig = \<lparr>key = Some ''modifiedon'', direction = descending\<rparr>,
      searchTerm = [], selectedCategory = None, selectedStatus = None,
      appliedFilters = \<lparr>search = [], category = None, status = None\<rparr>,
      totalCount = 0, currentPage = 1, nextLink = None, pageUrlHistory = []\<rparr>"

definition initial :: AppState where
  \<comment> \<open>before the first render; every effect runs after the first render\<close>
  "initial =
     \<lparr>workflows = Some [], isLoading = True, error = None,
      sortConfig = \<lparr>key = Some ''modifiedon'', direction = descending\<rparr>,
      searchTerm = [], selectedCategory = None, selectedStatus = None,
      appliedFilters = \<lparr>search = [], category = None, status = None\<rparr>,
      totalCount = 0, currentPage = 1, nextLink = None, pageUrlHistory = [],
      rendered = initial_cells, effectDue = True, inFlight = []\<rparr>"

definition snapshot :: "AppState \<Rightarrow> Cells" where
  \<comment> \<open>the values of the cells that a render of this state captures\<close>
  "snapshot s =
     \<lparr>workflows = workflows s, isLoading = isLoading s, error = error s,
      sortConfig = sortConfig s, searchTerm = searchTerm s,
      selectedCategory = selectedCategory s, selectedStatus = selectedStatus s,
      appliedFilters = appliedFilters s, totalCount = totalCount s,
      currentPage = currentPage s, nextLink = nextLink s,
      pageUrlHistory = pageUrlHistory s\<rparr>"

definition fetchPageData_start :: "string option \<Rightarrow> bool \<Rightarrow> AppState \<Rightarrow> AppState" where
  \<comment> \<open>\<open>fetchPageData\<close> up to its \<open>await\<close>\<close>
  "fetchPageData_start url isNewQuery s =
     s\<lparr>isLoading := True, error := None,
       inFlight := inFlight s @ [\<lparr>req_url = url, req_isNewQuery = isNewQuery,
                                  req_sortConfig = sortConfig (rendered s),
                                  req_filters = appliedFilters (rendered s)\<rparr>]\<rparr>"

definition error_message :: "thrown \<Rightarrow> string" where
  "error_message err =
     (case err of
        Error m \<Rightarrow> ''Failed to fetch data: '' @ m @ ''. Please check console for details.''
      | NonError \<Rightarrow> ''An unknown error occurred.'')"

definition fetchPageData_settle ::
  "request \<Rightarrow> thrown + WorkflowsResponse \<Rightarrow> AppState \<Rightarrow> AppState" where
  \<comment> \<open>\<open>fetchPageData\<close> after its \<open>await\<close>: the rest of \<open>try\<close>, or \<open>catch\<close>, then \<open>finally\<close>\<close>
  "fetchPageData_settle req outcome s =
     (case outcome of
        Inr data \<Rightarrow>
          (let s1 = s\<lparr>workflows := res_workflows data, totalCount := res_totalCount data,
                      nextLink := res_nextLink data\<rparr>;
               s2 = (if req_isNewQuery req
                     then s1\<lparr>currentPage := 1, pageUrlHistory := [requestUrl data]\<rparr>
                     else s1)
           in s2\<lparr>isLoading := False\<rparr>)
      | Inl err \<Rightarrow> s\<lparr>error := Some (error_message err), isLoading := False\<rparr>)"

definition request_outcome ::
  "request \<Rightarrow> http_response fetched \<Rightarrow> data_response fetched \<Rightarrow> thrown + WorkflowsResponse" where
  \<comment> \<open>the call of \<open>fetchWorkflows\<close> inside \<open>fetchPageData\<close>\<close>
  "request_outcome req token_answer data_answer =
     fetchWorkflows (req_sortConfig req) (search (req_filters req))
       (category (req_filters req)) (status (req_filters req)) (req_url req)
       token_answer data_answer"

definition settle ::
  "nat \<Rightarrow> http_response fetched \<Rightarrow> data_response fetched \<Rightarrow> AppState \<Rightarrow> AppState" where
  \<comment> \<open>the call at position \<open>i\<close> of \<open>inFlight\<close> receives its answers and runs to its end\<close>
  "settle i token_answer data_answer s =
     (if i < length (inFlight s) then
        (let req = inFlight s ! i
         in fetchPageData_settle req (request_outcome req token_answer data_answer)
              (s\<lparr>inFlight := take i (inFlight s) @ drop (Suc i) (inFlight s)\<rparr>))
      else s)"

definition render :: "AppState \<Rightarrow> AppState" where
  \<comment> \<open>a render, then the effect \<open>fetchPageData(undefined, true)\<close> if its dependencies changed\<close>
  "render s =
     (let s1 = s\<lparr>rendered := snapshot s\<rparr>
      in if effectDue s then fetchPageData_start None True (s1\<lparr>effectDue := False\<rparr>)
         else s1)"

definition mount :: AppState where
  "mount = render initial"

definition handleSort :: "string \<Rightarrow> AppState \<Rightarrow> AppState" where
  \<comment> \<open>\<open>setSortConfig\<close> with an updater: it reads the current cell\<close>
  "handleSort k s =
     s\<lparr>sortConfig :=
          \<lparr>key = Some k,
           direction = (if key (sortConfig s) = Some k
                           \<and> direction (sortConfig s) = ascending
                        then descending else ascending)\<rparr>,
       effectDue := True\<rparr>"

definition handleApplyFilters :: "AppState \<Rightarrow> AppState" where
  \<comment> \<open>the three draft values are those of the render\<close>
  "handleApplyFilters s =
     s\<lparr>appliedFilters :=
          \<lparr>search = searchTerm (rendered s), category = selectedCategory (rendered s),
           status = selectedStatus (rendered s)\<rparr>,
       effectDue := True\<rparr>"

definition handleNextPage :: "AppState \<Rightarrow> AppState" where
  \<comment> \<open>the guard and the cursor are those of the render; the two setters take updaters\<close>
  "handleNextPage s =
     (case nextLink (rendered s) of
        None \<Rightarrow> s
      | Some l \<Rightarrow>
          if \<not> truthy l \<or> isLoading (rendered s) then s
          else fetchPageData_start (Some l) False
                 (s\<lparr>currentPage := currentPage s + 1,
                    pageUrlHistory := pageUrlHistory s @ [l]\<rparr>))"

definition handlePrevPage :: "AppState \<Rightarrow> AppState" where
  \<comment> \<open>the guard and \<open>newHistory\<close> come from the render; \<open>setCurrentPage\<close> takes an updater.
      \<open>newHistory[newHistory.length - 1]\<close> is \<open>undefined\<close> when nothing is left\<close>
  "handlePrevPage s =
     (if currentPage (rendered s) \<le> 1 \<or> isLoading (rendered s) then s
      else (let newHistory = butlast (pageUrlHistory (rendered s));
                prevPageUrl = (if newHistory = [] then None else Some (last newHistory))
            in case prevPageUrl of
                 None \<Rightarrow> s
               | Some u \<Rightarrow>
                   if truthy u
                   then fetchPageData_start (Some u) False
                          (s\<lparr>currentPage := currentPage s - 1,
                             pageUrlHistory := newHistory\<rparr>)
                   else s))"

datatype event =
    SetSearchTerm string
  | SetSelectedCategory "int option"
  | SetSelectedStatus "int option"
  | ApplyFilters
  | Sort string
  | NextPage
  | PrevPage
  | Settle nat "http_response fetched" "data_response fetched"
  | Render

fun step :: "event \<Rightarrow> AppState \<Rightarrow> AppState" where
  "step (SetSearchTerm t) s = s\<lparr>searchTerm := t\<rparr>"
| "step (SetSelectedCategory c) s = s\<lparr>selectedCategory := c\<rparr>"
| "step (SetSelectedStatus c) s = s\<lparr>selectedStatus := c\<rparr>"
| "step ApplyFilters s = handleApplyFilters s"
| "step (Sort k) s = handleSort k s"
| "step NextPage s = handleNextPage s"
| "step PrevPage s = handlePrevPage s"
| "step (Settle i token_answer data_answer) s = settle i token_answer data_answer s"
| "step Render s = render s"

fun run :: "event list \<Rightarrow> AppState \<Rightarrow> AppState" where
  "run [] s = s"
| "run (e # es) s = run es (step e s)"

definition page_invariant :: "AppState \<Rightarrow> bool" where
  \<comment> \<open>\<open>cursorStack.length == currentPageNumber\<close>, on the current values\<close>
  "page_invariant s \<longleftrightarrow> int (length (pageUrlHistory s)) = currentPage s"

definition before_first_load :: "AppState \<Rightarrow> bool" where
  \<comment> \<open>no load has succeeded yet: page 1, no cursor, and the render shows the same\<close>
  "before_first_load s \<longleftrightarrow>
     pageUrlHistory s = [] \<and> currentPage s = 1 \<and> nextLink s = None
     \<and> nextLink (rendered s) = None \<and> currentPage (rendered s) \<le> 1
     \<and> list_all req_isNewQuery (inFlight s)"

fun timely :: "event list \<Rightarrow> AppState \<Rightarrow> bool" where
  \<comment> \<open>every previous-page trigger of the run meets a render that shows the current stack\<close>
  "timely [] s = True"
| "timely (e # es) s =
     ((e = PrevPage \<longrightarrow> pageUrlHistory (rendered s) = pageUrlHistory s)
      \<and> timely es (step e s))"

text \<open>Answers of the two endpoints and states that the examples below use.\<close>

definition plain_token_answer :: "http_response fetched" where
  "plain_token_answer =
     Responded \<lparr>resp_ok = True, resp_status = 200, resp_text = ''abc123'' @ [CHR 0x0A]\<rparr>"

definition page_answer :: "Workflow list \<Rightarrow> string option \<Rightarrow> data_response fetched" where
  "page_answer rows next =
     Responded \<lparr>data_ok = True, data_status = 200,
       data_json = Inr \<lparr>odata_value = Some rows, odata_nextLink = next,
                         odata_count = Some 120\<rparr>\<rparr>"

definition failed_answer :: "data_response fetched" where
  "failed_answer = Rejected ''Failed to fetch''"

definition first_load_failed :: AppState where
  \<comment> \<open>the initial load was rejected\<close>
  "first_load_failed = run [Settle 0 plain_token_answer failed_answer, Render] mount"

definition first_page :: AppState where
  \<comment> \<open>the initial load has settled; the server announced a second page at \<open>B\<close>\<close>
  "first_page =
     run [Settle 0 plain_token_answer (page_answer [JString ''row1''] (Some ''B'')), Render]
       mount"

definition second_page :: AppState where
  \<comment> \<open>then the second page was loaded; it is the last one\<close>
  "second_page =
     run [NextPage, Render,
          Settle 0 plain_token_answer (page_answer [JString ''row51''] None), Render]
       first_page"

definition filter_pending :: AppState where
  \<comment> \<open>on the second page a search text was typed and the filters were applied\<close>
  "filter_pending =
     run [SetSearchTerm ''flow'', Render, ApplyFilters, Render] second_page"

definition overlapped :: AppState where
  \<comment> \<open>the filters were applied during the initial load, which then settled\<close>
  "overlapped =
     run [ApplyFilters, Render,
          Settle 0 plain_token_answer (page_answer [JString ''row1''] (Some ''B'')), Render]
       mount"

definition paging_round :: "event list" where
  \<comment> \<open>next (the fetch fails), previous (the fetch succeeds), then new filters\<close>
  "paging_round =
     [NextPage, Render, Settle 0 plain_token_answer failed_answer, Render,
      PrevPage, Render, Settle 0 plain_token_answer (page_answer [] None), Render,
      ApplyFilters, Render]"

definition quoted_text :: string where
  \<comment> \<open>the search text \<open>x' or 1 eq 1 or 'a\<close>\<close>
  "quoted_text = ''x'' @ [APOS] @ '' or 1 eq 1 or '' @ [APOS] @ ''a''"

section \<open>Facts about the query builder\<close>

lemma read_literal_replace_quotes:
  "rest = [] \<or> hd rest \<noteq> APOS \<Longrightarrow>
   read_literal (replace_quotes s @ APOS # rest) = Some (s, rest)"
  by (induction s) (auto simp: replace_quotes_def split: list.splits)

lemma replace_quotes_plain: "APOS \<notin> set a \<Longrightarrow> replace_quotes a = a"
  by (induction a) (auto simp: replace_quotes_def)

lemma count_replace_quotes: "count_list (replace_quotes s) APOS = 2 * count_list s APOS"
  by (induction s) (auto simp: replace_quotes_def)

lemma filter_param:
  "filterClauses s c st \<noteq> [] \<Longrightarrow>
   map_of (queryParams sc s c st) ''$filter'' = Some (join '' and '' (filterClauses s c st))"
  by (simp add: queryParams_def Let_def)

lemma filter_value:
  "s \<noteq> [] \<Longrightarrow>
   join '' and '' (filterClauses s c st) =
     (case st of None \<Rightarrow> [] | Some n \<Rightarrow> ''statecode eq '' @ string_of_int n @ '' and '')
     @ search_clause s
     @ (case c of
          None \<Rightarrow> []
        | Some k \<Rightarrow> if k \<ge> 0 then '' and category eq '' @ string_of_int k else [])"
  by (simp add: filterClauses_def truthy_def split: option.splits)

text \<open>
  C5. For a search text that contains a single quote, the search clause is among the
  filter clauses and the \<open>$filter\<close> parameter is their conjunction: its value is the
  status clause and \<open>and\<close> (if a status is set), then the search clause, then \<open>and\<close>
  and the category clause (if a category of at least 0 is set), so the search clause
  stands in the value as written. The clause is the
  fixed frame around two copies of the escaped text; in the escaped text every quote of
  the search text is written twice and nothing else changes, so it holds twice as many
  quotes. Read as a string literal of the query language, the escaped text followed by
  the closing quote of the frame denotes the search text again and ends exactly at that
  closing quote: no quote of the search text closes the literal early, so the clause
  cannot fall apart into two clauses there.
\<close>

theorem search_text_quotes_doubled:
  assumes "APOS \<in> set s"
  shows "search_clause s \<in> set (filterClauses s c st)
    \<and> map_of (queryParams sc s c st) ''$filter'' = Some (join '' and '' (filterClauses s c st))
    \<and> map_of (queryParams sc s c st) ''$filter'' =
        Some ((case st of
                 None \<Rightarrow> []
               | Some n \<Rightarrow> ''statecode eq '' @ string_of_int n @ '' and '')
              @ search_clause s
              @ (case c of
                   None \<Rightarrow> []
                 | Some k \<Rightarrow>
                     if k \<ge> 0 then '' and category eq '' @ string_of_int k else []))
    \<and> (\<exists>pre post. map_of (queryParams sc s c st) ''$filter''
                      = Some (pre @ search_clause s @ post))
    \<and> search_clause s =
        ''(contains(name, '' @ APOS # replace_quotes s @ APOS
          # '') or contains(uniquename, '' @ APOS # replace_quotes s @ APOS # ''))''
    \<and> (\<forall>a b. replace_quotes (a @ APOS # b)
               = replace_quotes a @ [APOS, APOS] @ replace_quotes b)
    \<and> (\<forall>a. APOS \<notin> set a \<longrightarrow> replace_quotes a = a)
    \<and> count_list (replace_quotes s) APOS = 2 * count_list s APOS
    \<and> read_literal (drop 17 (search_clause s)) =
        Some (s, '') or contains(uniquename, '' @ APOS # replace_quotes s @ APOS # ''))'')
    \<and> read_literal (replace_quotes s @ APOS # ''))'') = Some (s, ''))'')"
proof -
  from assms have ne: "s \<noteq> []" by auto
  then have mem: "search_clause s \<in> set (filterClauses s c st)"
    by (simp add: filterClauses_def truthy_def)
  then have "filterClauses s c st \<noteq> []" by auto
  then have par: "map_of (queryParams sc s c st) ''$filter''
                    = Some (join '' and '' (filterClauses s c st))"
    by (rule filter_param)
  have val: "map_of (queryParams sc s c st) ''$filter'' =
        Some ((case st of
                 None \<Rightarrow> []
               | Some n \<Rightarrow> ''statecode eq '' @ string_of_int n @ '' and '')
              @ search_clause s
              @ (case c of
                   None \<Rightarrow> []
                 | Some k \<Rightarrow>
                     if k \<ge> 0 then '' and category eq '' @ string_of_int k else []))"
    using par filter_value [OF ne, of c st] by simp
  then have ex: "\<exists>pre post. map_of (queryParams sc s c st) ''$filter''
                      = Some (pre @ search_clause s @ post)"
    by blast
  have shape: "search_clause s =
        ''(contains(name, '' @ APOS # replace_quotes s @ APOS
          # '') or contains(uniquename, '' @ APOS # replace_quotes s @ APOS # ''))''"
    by (simp add: search_clause_def Let_def)
  have app: "\<forall>a b. replace_quotes (a @ APOS # b)
                 = replace_quotes a @ [APOS, APOS] @ replace_quotes b"
    by (simp add: replace_quotes_def)
  have plain: "\<forall>a. APOS \<notin> set a \<longrightarrow> replace_quotes a = a"
    by (simp add: replace_quotes_plain)
  have r1: "read_literal (drop 17 (search_clause s)) =
        Some (s, '') or contains(uniquename, '' @ APOS # replace_quotes s @ APOS # ''))'')"
    by (simp add: shape read_literal_replace_quotes)
  have r2: "read_literal (replace_quotes s @ APOS # ''))'') = Some (s, ''))'')"
    by (simp add: read_literal_replace_quotes)
  show ?thesis using mem par val ex shape app plain count_replace_quotes r1 r2 by blast
qed

theorem search_text_quotes_doubled_witness:
  "APOS \<in> set quoted_text
   \<and> replace_quotes quoted_text
       = ''x'' @ [APOS, APOS] @ '' or 1 eq 1 or '' @ [APOS, APOS] @ ''a''
   \<and> read_literal (replace_quotes quoted_text @ APOS # ''))'') = Some (quoted_text, ''))'')
   \<and> search_clause quoted_text \<in> set (filterClauses quoted_text None None)
   \<and> map_of (queryParams \<lparr>key = None, direction = descending\<rparr> quoted_text None None)
         ''$filter''
       = Some (''(contains(name, '' @ [APOS]
               @ ''x'' @ [APOS, APOS] @ '' or 1 eq 1 or '' @ [APOS, APOS] @ ''a'' @ [APOS]
               @ '') or contains(uniquename, '' @ [APOS]
               @ ''x'' @ [APOS, APOS] @ '' or 1 eq 1 or '' @ [APOS, APOS] @ ''a'' @ [APOS]
               @ ''))'')"
proof -
  have h: "APOS \<in> set quoted_text" by (simp add: quoted_text_def)
  have e: "replace_quotes quoted_text
             = ''x'' @ [APOS, APOS] @ '' or 1 eq 1 or '' @ [APOS, APOS] @ ''a''"
    by (simp add: replace_quotes_def quoted_text_def)
  note th = search_text_quotes_doubled
              [OF h, of None None "\<lparr>key = None, direction = descending\<rparr>"]
  from th have r: "read_literal (replace_quotes quoted_text @ APOS # ''))'')
                     = Some (quoted_text, ''))'')"
    by blast
  from th have m: "search_clause quoted_text \<in> set (filterClauses quoted_text None None)"
    by blast
  from th [THEN conjunct2, THEN conjunct2, THEN conjunct1]
  have "map_of (queryParams \<lparr>key = None, direction = descending\<rparr>
                  quoted_text None None) ''$filter''
          = Some (search_clause quoted_text)"
    by simp
  moreover from th have "search_clause quoted_text =
        ''(contains(name, '' @ APOS # replace_quotes quoted_text @ APOS
          # '') or contains(uniquename, '' @ APOS # replace_quotes quoted_text @ APOS # ''))''"
    by blast
  ultimately have v: "map_of (queryParams \<lparr>key = None, direction = descending\<rparr>
                          quoted_text None None) ''$filter''
       = Some (''(contains(name, '' @ [APOS]
               @ ''x'' @ [APOS, APOS] @ '' or 1 eq 1 or '' @ [APOS, APOS] @ ''a'' @ [APOS]
               @ '') or contains(uniquename, '' @ [APOS]
               @ ''x'' @ [APOS, APOS] @ '' or 1 eq 1 or '' @ [APOS, APOS] @ ''a'' @ [APOS]
               @ ''))'')"
    by (simp add: e)
  from h e r m v show ?thesis by blast
qed



text \<open>
  C7, as the code has it. The \<open>$orderby\<close> parameter of the built query is
  \<open>modifiedon desc\<close> when the sort field is \<open>null\<close> or the empty string; for every
  other field it is the field followed by \<open>asc\<close> when the direction is ascending and by
  \<open>desc\<close> when it is descending.
\<close>

theorem orderby_clause:
  "map_of (queryParams sc s c st) ''$orderby'' = Some (orderby sc)
   \<and> orderby sc =
       (case key sc of
          None \<Rightarrow> ''modifiedon desc''
        | Some k \<Rightarrow>
            if k = [] then ''modifiedon desc''
            else if direction sc = ascending then k @ '' asc'' else k @ '' desc'')"
  by (auto simp: queryParams_def Let_def orderby_def truthy_def split: option.splits)

theorem orderby_clause_witness:
  "orderby \<lparr>key = None, direction = ascending\<rparr> = ''modifiedon desc''
   \<and> orderby \<lparr>key = Some ''name'', direction = ascending\<rparr> = ''name asc''
   \<and> orderby \<lparr>key = Some ''name'', direction = descending\<rparr> = ''name desc''"
  using orderby_clause [of "\<lparr>key = None, direction = ascending\<rparr>"]
        orderby_clause [of "\<lparr>key = Some ''name'', direction = ascending\<rparr>"]
        orderby_clause [of "\<lparr>key = Some ''name'', direction = descending\<rparr>"]
  by simp

text \<open>
  The claim C7 as stated fails for the field that is the empty string: it is not
  \<open>null\<close>, yet the parameter is the default and not the field followed by \<open>asc\<close>.
\<close>

theorem orderby_empty_field_counterexample:
  "orderby \<lparr>key = Some '''', direction = ascending\<rparr> = ''modifiedon desc''
   \<and> orderby \<lparr>key = Some '''', direction = ascending\<rparr> \<noteq> '''' @ '' asc''"
  by (simp add: orderby_def truthy_def)

section \<open>Facts about the credential call\<close>

lemma string_prop_iff:
  "string_prop d k = Some v \<longleftrightarrow>
     (\<exists>fs. d = JObject fs \<and> map_of (rev fs) k = Some (JString v) \<and> v \<noteq> [])"
  by (auto simp: string_prop_def get_prop_def truthy_def split: json.splits option.splits)

lemma string_prop_not_object: "\<not> is_object d \<Longrightarrow> string_prop d k = None"
  by (auto simp: string_prop_def get_prop_def is_object_def split: json.splits)

lemma token_of_text_cases:
  "token_of_text t =
     (case JSON_parse t of
        None \<Rightarrow> trim t
      | Some d \<Rightarrow>
          (case string_prop d ''token'' of
             Some v \<Rightarrow> v
           | None \<Rightarrow>
               (case string_prop d ''accessToken'' of
                  Some v \<Rightarrow> v
                | None \<Rightarrow> trim t)))"
proof (cases "JSON_parse t")
  case None
  then show ?thesis by (simp add: token_of_text_def)
next
  case (Some d)
  show ?thesis
  proof (cases "is_object d")
    case True
    with Some show ?thesis by (simp add: token_of_text_def)
  next
    case False
    with Some show ?thesis by (simp add: token_of_text_def string_prop_not_object)
  qed
qed

text \<open>
  C8, as the code has it. A successful response of the credential endpoint always yields
  a token, never an error. A body that is not a JSON text yields the body trimmed. A body
  that is a JSON text yields the member \<open>token\<close> when the body is an object and that
  member is a non-empty string, else the member \<open>accessToken\<close> under the same
  condition; every other JSON body yields the body text trimmed, as a plain-text body
  does.
\<close>

theorem credential_token:
  assumes "resp_ok r"
  shows "getAuthToken (Responded r) =
           Inr (case JSON_parse (resp_text r) of
                  None \<Rightarrow> trim (resp_text r)
                | Some d \<Rightarrow>
                    (case string_prop d ''token'' of
                       Some v \<Rightarrow> v
                     | None \<Rightarrow>
                         (case string_prop d ''accessToken'' of
                            Some v \<Rightarrow> v
                          | None \<Rightarrow> trim (resp_text r))))
       \<and> (\<forall>d k v. string_prop d k = Some v \<longleftrightarrow>
            (\<exists>fs. d = JObject fs \<and> map_of (rev fs) k = Some (JString v) \<and> v \<noteq> []))"
proof -
  from assms have "getAuthToken (Responded r) = Inr (token_of_text (resp_text r))"
    by (simp add: getAuthToken_def)
  then show ?thesis
    using token_of_text_cases [of "resp_text r"] string_prop_iff by simp
qed

theorem credential_token_witness:
  "getAuthToken plain_token_answer = Inr ''abc123''
   \<and> getAuthToken (Responded \<lparr>resp_ok = True, resp_status = 200,
        resp_text = ''{\"accessToken\":\"xyz\"}''\<rparr>) = Inr ''xyz''
   \<and> getAuthToken (Responded \<lparr>resp_ok = True, resp_status = 200,
        resp_text = ''{\"token\":\"t1\"}''\<rparr>) = Inr ''t1''"
proof -
  have p1: "JSON_parse (''abc123'' @ [CHR 0x0A]) = None" by code_simp
  have t1: "trim (''abc123'' @ [CHR 0x0A]) = ''abc123''" by code_simp
  have p2: "JSON_parse ''{\"accessToken\":\"xyz\"}''
              = Some (JObject [(''accessToken'', JString ''xyz'')])"
    by code_simp
  have p3: "JSON_parse ''{\"token\":\"t1\"}'' = Some (JObject [(''token'', JString ''t1'')])"
    by code_simp
  have s2: "string_prop (JObject [(''accessToken'', JString ''xyz'')]) ''token'' = None"
    "string_prop (JObject [(''accessToken'', JString ''xyz'')]) ''accessToken'' = Some ''xyz''"
    "string_prop (JObject [(''token'', JString ''t1'')]) ''token'' = Some ''t1''"
    by (simp_all add: string_prop_def get_prop_def truthy_def)
  show ?thesis
    using credential_token [of "\<lparr>resp_ok = True, resp_status = 200,
                                  resp_text = ''abc123'' @ [CHR 0x0A]\<rparr>"]
          credential_token [of "\<lparr>resp_ok = True, resp_status = 200,
                                  resp_text = ''{\"accessToken\":\"xyz\"}''\<rparr>"]
          credential_token [of "\<lparr>resp_ok = True, resp_status = 200,
                                  resp_text = ''{\"token\":\"t1\"}''\<rparr>"]
          p1 t1 p2 p3 s2
    by (simp add: plain_token_answer_def)
qed

text \<open>
  The claim C8 as stated fails in its last part: the body \<open>{}\<close> is a JSON object with
  neither member, and the call returns the text \<open>{}\<close> as the token.
\<close>

theorem credential_other_shape_counterexample:
  "getAuthToken (Responded \<lparr>resp_ok = True, resp_status = 200, resp_text = ''{}''\<rparr>)
     = Inr ''{}''"
  by code_simp

section \<open>Facts about the controller\<close>

text \<open>A write to a cell leaves the copy of the render, the effect flag and the calls in flight.\<close>

lemma cell_update_frame [simp]:
  fixes s :: AppState
  shows
  "rendered (s\<lparr>workflows := x0\<rparr>) = rendered s"
  "rendered (s\<lparr>isLoading := x1\<rparr>) = rendered s"
  "rendered (s\<lparr>error := x2\<rparr>) = rendered s"
  "rendered (s\<lparr>sortConfig := x3\<rparr>) = rendered s"
  "rendered (s\<lparr>searchTerm := x4\<rparr>) = rendered s"
  "rendered (s\<lparr>selectedCategory := x5\<rparr>) = rendered s"
  "rendered (s\<lparr>selectedStatus := x6\<rparr>) = rendered s"
  "rendered (s\<lparr>appliedFilters := x7\<rparr>) = rendered s"
  "rendered (s\<lparr>totalCount := x8\<rparr>) = rendered s"
  "rendered (s\<lparr>currentPage := x9\<rparr>) = rendered s"
  "rendered (s\<lparr>nextLink := x10\<rparr>) = rendered s"
  "rendered (s\<lparr>pageUrlHistory := x11\<rparr>) = rendered s"
  "effectDue (s\<lparr>workflows := x0\<rparr>) = effectDue s"
  "effectDue (s\<lparr>isLoading := x1\<rparr>) = effectDue s"
  "effectDue (s\<lparr>error := x2\<rparr>) = effectDue s"
  "effectDue (s\<lparr>sortConfig := x3\<rparr>) = effectDue s"
  "effectDue (s\<lparr>searchTerm := x4\<rparr>) = effectDue s"
  "effectDue (s\<lparr>selectedCategory := x5\<rparr>) = effectDue s"
  "effectDue (s\<lparr>selectedStatus := x6\<rparr>) = effectDue s"
  "effectDue (s\<lparr>appliedFilters := x7\<rparr>) = effectDue s"
  "effectDue (s\<lparr>totalCount := x8\<rparr>) = effectDue s"
  "effectDue (s\<lparr>currentPage := x9\<rparr>) = effectDue s"
  "effectDue (s\<lparr>nextLink := x10\<rparr>) = effectDue s"
  "effectDue (s\<lparr>pageUrlHistory := x11\<rparr>) = effectDue s"
  "inFlight (s\<lparr>workflows := x0\<rparr>) = inFlight s"
  "inFlight (s\<lparr>isLoading := x1\<rparr>) = inFlight s"
  "inFlight (s\<lparr>error := x2\<rparr>) = inFlight s"
  "inFlight (s\<lparr>sortConfig := x3\<rparr>) = inFlight s"
  "inFlight (s\<lparr>searchTerm := x4\<rparr>) = inFlight s"
  "inFlight (s\<lparr>selectedCategory := x5\<rparr>) = inFlight s"
  "inFlight (s\<lparr>selectedStatus := x6\<rparr>) = inFlight s"
  "inFlight (s\<lparr>appliedFilters := x7\<rparr>) = inFlight s"
  "inFlight (s\<lparr>totalCount := x8\<rparr>) = inFlight s"
  "inFlight (s\<lparr>currentPage := x9\<rparr>) = inFlight s"
  "inFlight (s\<lparr>nextLink := x10\<rparr>) = inFlight s"
  "inFlight (s\<lparr>pageUrlHistory := x11\<rparr>) = inFlight s"
  by (cases s, simp)+

lemma fetchPageData_start_fields [simp]:
  "currentPage (fetchPageData_start u q s) = currentPage s"
  "pageUrlHistory (fetchPageData_start u q s) = pageUrlHistory s"
  "nextLink (fetchPageData_start u q s) = nextLink s"
  "workflows (fetchPageData_start u q s) = workflows s"
  "totalCount (fetchPageData_start u q s) = totalCount s"
  "isLoading (fetchPageData_start u q s)"
  "rendered (fetchPageData_start u q s) = rendered s"
  "inFlight (fetchPageData_start u q s) =
     inFlight s @ [\<lparr>req_url = u, req_isNewQuery = q, req_sortConfig = sortConfig (rendered s),
                     req_filters = appliedFilters (rendered s)\<rparr>]"
  by (simp_all add: fetchPageData_start_def)

lemma settle_failed:
  assumes "i < length (inFlight s)" "request_outcome (inFlight s ! i) tok dat = Inl e"
  shows "settle i tok dat s =
           s\<lparr>error := Some (error_message e), isLoading := False,
             inFlight := take i (inFlight s) @ drop (Suc i) (inFlight s)\<rparr>"
  using assms by (cases s) (simp add: settle_def Let_def fetchPageData_settle_def)

lemma settle_succeeded:
  assumes "i < length (inFlight s)" "request_outcome (inFlight s ! i) tok dat = Inr data"
  shows "settle i tok dat s =
           (if req_isNewQuery (inFlight s ! i)
            then s\<lparr>workflows := res_workflows data, totalCount := res_totalCount data,
                   nextLink := res_nextLink data, currentPage := 1,
                   pageUrlHistory := [requestUrl data], isLoading := False,
                   inFlight := take i (inFlight s) @ drop (Suc i) (inFlight s)\<rparr>
            else s\<lparr>workflows := res_workflows data, totalCount := res_totalCount data,
                   nextLink := res_nextLink data, isLoading := False,
                   inFlight := take i (inFlight s) @ drop (Suc i) (inFlight s)\<rparr>)"
  using assms by (cases s) (simp add: settle_def Let_def fetchPageData_settle_def)

lemma settle_rendered [simp]: "rendered (settle i tok dat s) = rendered s"
  by (simp add: settle_def Let_def fetchPageData_settle_def split: sum.splits)

lemma request_outcome_url:
  "request_outcome req tok dat = Inr data \<Longrightarrow>
   requestUrl data = fetchUrl (req_sortConfig req) (search (req_filters req))
       (category (req_filters req)) (status (req_filters req)) (req_url req)"
  by (auto simp: request_outcome_def fetchWorkflows_def Let_def split: sum.splits prod.splits)

lemma fetchUrl_no_cursor:
  "fetchUrl sc t c st None =
     DATAVERSE_URL @ ''?'' @ URLSearchParams_toString (queryParams sc t c st)"
  by (simp add: fetchUrl_def)

lemma handleNextPage_accepted:
  assumes "nextLink (rendered s) = Some l" "l \<noteq> []" "\<not> isLoading (rendered s)"
  shows "handleNextPage s =
           fetchPageData_start (Some l) False
             (s\<lparr>currentPage := currentPage s + 1, pageUrlHistory := pageUrlHistory s @ [l]\<rparr>)"
  using assms by (simp add: handleNextPage_def truthy_def)

lemma handlePrevPage_accepted:
  assumes "currentPage (rendered s) > 1" "\<not> isLoading (rendered s)"
    "pageUrlHistory (rendered s) = hs @ [p, c]" "p \<noteq> []"
  shows "handlePrevPage s =
           fetchPageData_start (Some p) False
             (s\<lparr>currentPage := currentPage s - 1, pageUrlHistory := hs @ [p]\<rparr>)"
  using assms by (simp add: handlePrevPage_def truthy_def Let_def butlast_append)

lemma first_page_state:
  "currentPage first_page = 1" "nextLink first_page = Some ''B''" "\<not> isLoading first_page"
  "inFlight first_page = []" "workflows first_page = Some [JString ''row1'']"
  "nextLink (rendered first_page) = Some ''B''" "\<not> isLoading (rendered first_page)"
  by code_simp+

lemma plain_token: "getAuthToken plain_token_answer = Inr ''abc123''"
  by code_simp

lemma first_page_history:
  "pageUrlHistory first_page =
     [DATAVERSE_URL @ ''?%24top=50&%24count=true&%24orderby=modifiedon+desc'']"
  by code_simp

lemma second_page_state:
  "currentPage second_page = 2" "nextLink second_page = None" "\<not> isLoading second_page"
  "inFlight second_page = []" "workflows second_page = Some [JString ''row51'']"
  "pageUrlHistory second_page = pageUrlHistory first_page @ [''B'']"
  "currentPage (rendered second_page) = 2" "\<not> isLoading (rendered second_page)"
  "pageUrlHistory (rendered second_page) = pageUrlHistory first_page @ [''B'']"
  by code_simp+

lemma rejected_outcome:
  "request_outcome req plain_token_answer failed_answer = Inl (Error ''Failed to fetch'')"
  by (simp add: request_outcome_def fetchWorkflows_def getWorkflowsFromUrl_def
        failed_answer_def plain_token)

text \<open>
  C1. What the code does where the claim asks for no change. An accepted next-page
  trigger adds one to the page number and appends the cursor to the stack before the
  fetch starts; when the fetch then fails, nothing takes this back. After the failure the
  page number is one more than before the trigger and the stack is one entry longer;
  only \<open>nextLink\<close> is as before.
\<close>

theorem next_page_failure_not_rolled_back:
  assumes "nextLink (rendered s) = Some l" "l \<noteq> []" "\<not> isLoading (rendered s)"
    and "request_outcome \<lparr>req_url = Some l, req_isNewQuery = False,
           req_sortConfig = sortConfig (rendered s),
           req_filters = appliedFilters (rendered s)\<rparr> tok dat = Inl e"
  shows "currentPage (settle (length (inFlight s)) tok dat (handleNextPage s))
           = currentPage s + 1
       \<and> pageUrlHistory (settle (length (inFlight s)) tok dat (handleNextPage s))
           = pageUrlHistory s @ [l]
       \<and> nextLink (settle (length (inFlight s)) tok dat (handleNextPage s)) = nextLink s
       \<and> inFlight (settle (length (inFlight s)) tok dat (handleNextPage s)) = inFlight s"
proof -
  let ?s1 = "handleNextPage s"
  have s1: "?s1 = fetchPageData_start (Some l) False
             (s\<lparr>currentPage := currentPage s + 1, pageUrlHistory := pageUrlHistory s @ [l]\<rparr>)"
    using assms(1-3) by (rule handleNextPage_accepted)
  have i: "length (inFlight s) < length (inFlight ?s1)" by (simp add: s1)
  have r: "inFlight ?s1 ! length (inFlight s) = \<lparr>req_url = Some l, req_isNewQuery = False,
           req_sortConfig = sortConfig (rendered s),
           req_filters = appliedFilters (rendered s)\<rparr>"
    by (simp add: s1)
  have "request_outcome (inFlight ?s1 ! length (inFlight s)) tok dat = Inl e"
    using assms(4) by (simp only: r)
  from settle_failed [OF i this] show ?thesis by (simp add: s1)
qed

theorem next_page_failure_not_rolled_back_witness:
  "currentPage first_page = 1
   \<and> currentPage (settle 0 plain_token_answer failed_answer (handleNextPage first_page)) = 2
   \<and> pageUrlHistory (settle 0 plain_token_answer failed_answer (handleNextPage first_page))
       = pageUrlHistory first_page @ [''B'']"
proof -
  have b: "''B'' \<noteq> []" by simp
  from next_page_failure_not_rolled_back
         [OF first_page_state(6) b first_page_state(7) rejected_outcome]
    first_page_state(1,4)
  show ?thesis by simp
qed

text \<open>
  C2. What the code does where the claim asks for a rollback. An accepted previous-page
  trigger takes one from the page number and drops the top of the stack before the fetch
  starts; when the fetch then fails, nothing puts them back. After the failure the page
  number and the stack are those of the previous page, while the rows and \<open>nextLink\<close>
  are still those of the page that was shown. The stack keeps at least one entry.
\<close>

theorem prev_page_failure_not_rolled_back:
  assumes "currentPage (rendered s) > 1" "\<not> isLoading (rendered s)"
    and "pageUrlHistory (rendered s) = hs @ [p, c]" "p \<noteq> []"
    and "request_outcome \<lparr>req_url = Some p, req_isNewQuery = False,
           req_sortConfig = sortConfig (rendered s),
           req_filters = appliedFilters (rendered s)\<rparr> tok dat = Inl e"
  shows "currentPage (settle (length (inFlight s)) tok dat (handlePrevPage s))
           = currentPage s - 1
       \<and> pageUrlHistory (settle (length (inFlight s)) tok dat (handlePrevPage s)) = hs @ [p]
       \<and> workflows (settle (length (inFlight s)) tok dat (handlePrevPage s)) = workflows s
       \<and> nextLink (settle (length (inFlight s)) tok dat (handlePrevPage s)) = nextLink s"
proof -
  let ?s1 = "handlePrevPage s"
  have s1: "?s1 = fetchPageData_start (Some p) False
             (s\<lparr>currentPage := currentPage s - 1, pageUrlHistory := hs @ [p]\<rparr>)"
    using assms(1-4) by (rule handlePrevPage_accepted)
  have i: "length (inFlight s) < length (inFlight ?s1)" by (simp add: s1)
  have r: "inFlight ?s1 ! length (inFlight s) = \<lparr>req_url = Some p, req_isNewQuery = False,
           req_sortConfig = sortConfig (rendered s),
           req_filters = appliedFilters (rendered s)\<rparr>"
    by (simp add: s1)
  have "request_outcome (inFlight ?s1 ! length (inFlight s)) tok dat = Inl e"
    using assms(5) by (simp only: r)
  from settle_failed [OF i this] show ?thesis by (simp add: s1)
qed

theorem prev_page_failure_not_rolled_back_witness:
  "currentPage second_page = 2
   \<and> currentPage (settle 0 plain_token_answer failed_answer (handlePrevPage second_page)) = 1
   \<and> length (pageUrlHistory second_page) = 2
   \<and> length (pageUrlHistory
        (settle 0 plain_token_answer failed_answer (handlePrevPage second_page))) = 1
   \<and> workflows (settle 0 plain_token_answer failed_answer (handlePrevPage second_page))
       = Some [JString ''row51'']"
proof -
  let ?u = "DATAVERSE_URL @ ''?%24top=50&%24count=true&%24orderby=modifiedon+desc''"
  have une: "?u \<noteq> []" by simp
  have h: "pageUrlHistory (rendered second_page) = [] @ [?u, ''B'']"
    using second_page_state(9) first_page_history by simp
  have h': "pageUrlHistory second_page = [?u, ''B'']"
    using second_page_state(6) first_page_history by simp
  have gt: "currentPage (rendered second_page) > 1" using second_page_state(7) by simp
  from prev_page_failure_not_rolled_back
         [OF gt second_page_state(8) h une rejected_outcome]
    second_page_state(1,4,5) h'
  show ?thesis by simp
qed

lemma render_starts_due_effect:
  "effectDue s \<Longrightarrow>
   inFlight (render s) =
     inFlight s @ [\<lparr>req_url = None, req_isNewQuery = True, req_sortConfig = sortConfig s,
                     req_filters = appliedFilters s\<rparr>]"
  by (cases s) (simp add: render_def Let_def snapshot_def fetchPageData_start_def)

text \<open>
  C3. Applying the filters, and likewise committing a sort, makes the next render start
  a call that carries no explicit cursor and is marked as a new query, with the filters
  and the sort just set. When a call of this kind resolves, from whatever page number
  and stack depth, the page number is 1 and the stack is the single locator that the
  call resolved, which is the address built from its own sort and filters.
\<close>

theorem new_query_resets_on_success:
  "inFlight (render (handleApplyFilters s)) =
     inFlight s @ [\<lparr>req_url = None, req_isNewQuery = True, req_sortConfig = sortConfig s,
        req_filters = \<lparr>search = searchTerm (rendered s),
                       category = selectedCategory (rendered s),
                       status = selectedStatus (rendered s)\<rparr>\<rparr>]
   \<and> (\<exists>d. inFlight (render (handleSort k s)) =
         inFlight s @ [\<lparr>req_url = None, req_isNewQuery = True,
            req_sortConfig = \<lparr>key = Some k, direction = d\<rparr>,
            req_filters = appliedFilters s\<rparr>])
   \<and> (\<forall>i tok dat data.
         i < length (inFlight s) \<and> req_isNewQuery (inFlight s ! i)
         \<and> req_url (inFlight s ! i) = None
         \<and> request_outcome (inFlight s ! i) tok dat = Inr data \<longrightarrow>
           currentPage (settle i tok dat s) = 1
           \<and> pageUrlHistory (settle i tok dat s) = [requestUrl data]
           \<and> requestUrl data =
               DATAVERSE_URL @ ''?'' @ URLSearchParams_toString
                 (queryParams (req_sortConfig (inFlight s ! i))
                    (search (req_filters (inFlight s ! i)))
                    (category (req_filters (inFlight s ! i)))
                    (status (req_filters (inFlight s ! i)))))"
proof -
  have a: "inFlight (render (handleApplyFilters s)) =
     inFlight s @ [\<lparr>req_url = None, req_isNewQuery = True, req_sortConfig = sortConfig s,
        req_filters = \<lparr>search = searchTerm (rendered s),
                       category = selectedCategory (rendered s),
                       status = selectedStatus (rendered s)\<rparr>\<rparr>]"
    using render_starts_due_effect [of "handleApplyFilters s"]
    by (cases s) (simp add: handleApplyFilters_def)
  have b: "\<exists>d. inFlight (render (handleSort k s)) =
         inFlight s @ [\<lparr>req_url = None, req_isNewQuery = True,
            req_sortConfig = \<lparr>key = Some k, direction = d\<rparr>,
            req_filters = appliedFilters s\<rparr>]"
    using render_starts_due_effect [of "handleSort k s"]
    by (cases s) (simp add: handleSort_def)
  have c: "currentPage (settle i tok dat s) = 1
           \<and> pageUrlHistory (settle i tok dat s) = [requestUrl data]
           \<and> requestUrl data =
               DATAVERSE_URL @ ''?'' @ URLSearchParams_toString
                 (queryParams (req_sortConfig (inFlight s ! i))
                    (search (req_filters (inFlight s ! i)))
                    (category (req_filters (inFlight s ! i)))
                    (status (req_filters (inFlight s ! i))))"
    if "i < length (inFlight s)" "req_isNewQuery (inFlight s ! i)"
       "req_url (inFlight s ! i) = None" "request_outcome (inFlight s ! i) tok dat = Inr data"
    for i tok dat data
    using settle_succeeded [OF that(1) that(4)] request_outcome_url [OF that(4)] that(2,3)
    by (simp add: fetchUrl_no_cursor)
  from a b c show ?thesis by blast
qed

theorem new_query_resets_on_success_witness:
  "currentPage filter_pending = 2
   \<and> currentPage (settle 0 plain_token_answer (page_answer [] None) filter_pending) = 1
   \<and> pageUrlHistory (settle 0 plain_token_answer (page_answer [] None) filter_pending)
       = [DATAVERSE_URL @ ''?'' @ URLSearchParams_toString
            (queryParams \<lparr>key = Some ''modifiedon'', direction = descending\<rparr>
               ''flow'' None None)]"
proof -
  let ?data = "\<lparr>res_workflows = Some [], res_nextLink = None, res_totalCount = 120,
                 requestUrl = fetchUrl \<lparr>key = Some ''modifiedon'', direction = descending\<rparr>
                                ''flow'' None None None\<rparr>"
  have fl: "inFlight filter_pending = [\<lparr>req_url = None, req_isNewQuery = True,
              req_sortConfig = \<lparr>key = Some ''modifiedon'', direction = descending\<rparr>,
              req_filters = \<lparr>search = ''flow'', category = None, status = None\<rparr>\<rparr>]"
    by code_simp
  have pg: "currentPage filter_pending = 2" by code_simp
  have out: "request_outcome (inFlight filter_pending ! 0) plain_token_answer
               (page_answer [] None) = Inr ?data"
    by (simp add: fl request_outcome_def fetchWorkflows_def plain_token
          getWorkflowsFromUrl_def page_answer_def)
  have hyp: "0 < length (inFlight filter_pending) \<and> req_isNewQuery (inFlight filter_pending ! 0)
         \<and> req_url (inFlight filter_pending ! 0) = None
         \<and> request_outcome (inFlight filter_pending ! 0) plain_token_answer
             (page_answer [] None) = Inr ?data"
    using out by (simp add: fl)
  have "currentPage (settle 0 plain_token_answer (page_answer [] None) filter_pending) = 1
        \<and> pageUrlHistory (settle 0 plain_token_answer (page_answer [] None) filter_pending)
            = [requestUrl ?data]"
    using new_query_resets_on_success [of filter_pending] hyp by blast
  then show ?thesis using pg by (simp add: fetchUrl_no_cursor)
qed

text \<open>
  A call that fails leaves the page number and the stack as they were, the call of a new
  query included.
\<close>

lemma failed_call_keeps_page:
  assumes "i < length (inFlight s)" "request_outcome (inFlight s ! i) tok dat = Inl e"
  shows "currentPage (settle i tok dat s) = currentPage s
         \<and> pageUrlHistory (settle i tok dat s) = pageUrlHistory s"
  using settle_failed [OF assms] by simp

lemma settle_invariant:
  "page_invariant s \<Longrightarrow> page_invariant (fetchPageData_settle r out s)"
  by (auto simp: page_invariant_def fetchPageData_settle_def Let_def split: sum.splits)

lemma render_cells:
  "currentPage (render s) = currentPage s" "pageUrlHistory (render s) = pageUrlHistory s"
  "nextLink (render s) = nextLink s"
  "rendered (render s) = snapshot s"
  by (cases s, simp add: render_def Let_def)+

lemma snapshot_cells [simp]:
  "currentPage (snapshot s) = currentPage s" "pageUrlHistory (snapshot s) = pageUrlHistory s"
  "nextLink (snapshot s) = nextLink s" "isLoading (snapshot s) = isLoading s"
  by (simp_all add: snapshot_def)

lemma step_invariant:
  assumes "page_invariant s" "e = PrevPage \<longrightarrow> pageUrlHistory (rendered s) = pageUrlHistory s"
  shows "page_invariant (step e s)"
proof (cases e)
  case (Settle i tok dat)
  from assms(1)
  have "page_invariant (s\<lparr>inFlight := take i (inFlight s) @ drop (Suc i) (inFlight s)\<rparr>)"
    by (simp add: page_invariant_def)
  then show ?thesis using Settle assms(1)
    by (simp add: settle_def Let_def settle_invariant)
next
  case NextPage
  with assms(1) show ?thesis
    by (auto simp: handleNextPage_def page_invariant_def split: option.splits)
next
  case PrevPage
  have len: "int (length xs - Suc 0) = int (length xs) - 1" if "butlast xs \<noteq> []"
    for xs :: "string list"
    using that by (cases xs) simp_all
  from PrevPage assms show ?thesis
    by (auto simp: handlePrevPage_def page_invariant_def Let_def len split: option.splits)
next
  case Render
  with assms(1) show ?thesis by (simp add: page_invariant_def render_cells)
qed (use assms(1) in \<open>auto simp: page_invariant_def handleApplyFilters_def handleSort_def\<close>)

lemma timely_run_invariant:
  "timely evs s \<Longrightarrow> page_invariant s \<Longrightarrow> page_invariant (run evs s)"
  by (induction evs arbitrary: s) (simp_all add: step_invariant)

lemma before_first_load_step:
  assumes "before_first_load s"
  shows "page_invariant (step e s) \<or> before_first_load (step e s)"
proof -
  from assms have pre: "pageUrlHistory s = []" "currentPage s = 1" "nextLink s = None"
    "nextLink (rendered s) = None" "currentPage (rendered s) \<le> 1"
    "list_all req_isNewQuery (inFlight s)"
    by (simp_all add: before_first_load_def)
  show ?thesis
  proof (cases e)
    case (Settle i tok dat)
    show ?thesis
    proof (cases "i < length (inFlight s)")
      case lt: True
      then have new: "req_isNewQuery (inFlight s ! i)"
        using pre(6) by (simp add: list_all_length)
      have rest: "list_all req_isNewQuery (take i (inFlight s) @ drop (Suc i) (inFlight s))"
        using pre(6) by (auto simp: list_all_iff dest: in_set_takeD in_set_dropD)
      show ?thesis
      proof (cases "request_outcome (inFlight s ! i) tok dat")
        case (Inl err)
        from settle_failed [OF lt Inl] pre rest Settle show ?thesis
          by (simp add: before_first_load_def)
      next
        case (Inr data)
        from settle_succeeded [OF lt Inr] new Settle show ?thesis
          by (simp add: page_invariant_def)
      qed
    next
      case False
      with assms Settle show ?thesis by (simp add: settle_def)
    qed
  next
    case NextPage
    with assms pre show ?thesis by (simp add: handleNextPage_def)
  next
    case PrevPage
    with assms pre show ?thesis by (simp add: handlePrevPage_def)
  next
    case Render
    with pre show ?thesis
      by (cases s)
         (simp add: before_first_load_def render_def Let_def snapshot_def
            fetchPageData_start_def)
  qed (use pre in \<open>auto simp: before_first_load_def handleApplyFilters_def handleSort_def\<close>)
qed

lemma timely_run_from_start:
  "timely evs s \<Longrightarrow> page_invariant s \<or> before_first_load s \<Longrightarrow>
   page_invariant (run evs s) \<or> before_first_load (run evs s)"
proof (induction evs arbitrary: s)
  case Nil
  then show ?case by simp
next
  case (Cons e evs)
  from Cons.prems(1) have t: "timely evs (step e s)"
    and p: "e = PrevPage \<longrightarrow> pageUrlHistory (rendered s) = pageUrlHistory s"
    by simp_all
  from Cons.prems(2) have "page_invariant (step e s) \<or> before_first_load (step e s)"
    using step_invariant [OF _ p] before_first_load_step by blast
  from Cons.IH [OF t this] show ?case by simp
qed

lemma before_first_load_mount: "before_first_load mount"
  by code_simp

text \<open>
  C4, as the code has it. From the mounted component on, every state that a run of
  events reaches has the length of the cursor stack equal to the page number, or is a
  state in which no load has succeeded yet, where the page number is 1 and the stack is
  empty. Once the equality holds, every transition keeps it: the edits of the draft
  filters, a filter or sort change, a render, a next-page trigger, a previous-page
  trigger, and the settling of any call in flight, with success or with failure. Both
  hold for the runs in which every previous-page trigger meets a render that shows the
  current stack.
\<close>

theorem page_invariant_when_timely:
  "(timely evs mount \<longrightarrow>
      page_invariant (run evs mount)
      \<or> (currentPage (run evs mount) = 1 \<and> pageUrlHistory (run evs mount) = []))
   \<and> (timely evs s \<and> page_invariant s \<longrightarrow> page_invariant (run evs s))"
proof -
  have "page_invariant (run evs mount)
        \<or> (currentPage (run evs mount) = 1 \<and> pageUrlHistory (run evs mount) = [])"
    if "timely evs mount"
    using timely_run_from_start [OF that] before_first_load_mount
    by (auto simp: before_first_load_def)
  then show ?thesis using timely_run_invariant by blast
qed

theorem page_invariant_when_timely_witness:
  "timely paging_round first_page
   \<and> page_invariant first_page
   \<and> page_invariant (run paging_round first_page)
   \<and> currentPage (run paging_round first_page) = 1
   \<and> timely [Settle 0 plain_token_answer failed_answer, Render] mount
   \<and> (page_invariant (run [Settle 0 plain_token_answer failed_answer, Render] mount)
       \<or> (currentPage (run [Settle 0 plain_token_answer failed_answer, Render] mount) = 1
           \<and> pageUrlHistory (run [Settle 0 plain_token_answer failed_answer, Render] mount)
               = []))"
proof -
  have t: "timely paging_round first_page" by code_simp
  have p: "page_invariant first_page" by code_simp
  have c: "currentPage (run paging_round first_page) = 1" by code_simp
  have t2: "timely [Settle 0 plain_token_answer failed_answer, Render] mount" by code_simp
  from page_invariant_when_timely [of paging_round first_page] t p
  have one: "page_invariant (run paging_round first_page)" by blast
  from page_invariant_when_timely
         [of "[Settle 0 plain_token_answer failed_answer, Render]"] t2
  have two: "page_invariant (run [Settle 0 plain_token_answer failed_answer, Render] mount)
       \<or> (currentPage (run [Settle 0 plain_token_answer failed_answer, Render] mount) = 1
           \<and> pageUrlHistory (run [Settle 0 plain_token_answer failed_answer, Render] mount)
               = [])"
    by blast
  from t p c t2 one two show ?thesis by blast
qed

text \<open>
  The claim C4 as stated fails before the first successful load. The component starts
  on page 1 with an empty stack; when the initial load is rejected, the settled and
  rendered state is still on page 1 with an empty stack.
\<close>

theorem page_invariant_first_load_counterexample:
  "currentPage first_load_failed = 1
   \<and> pageUrlHistory first_load_failed = []
   \<and> inFlight first_load_failed = []
   \<and> \<not> page_invariant first_load_failed"
  by code_simp

text \<open>
  Two previous-page triggers on one render are outside the runs of C4: the second one
  writes the stack of the render again and takes one more from the page number. On the
  second page this gives page 0 with one entry on the stack.
\<close>

lemma two_previous_triggers_on_one_render:
  "currentPage (run [PrevPage, PrevPage] second_page) = 0
   \<and> length (pageUrlHistory (run [PrevPage, PrevPage] second_page)) = 1"
  by code_simp

text \<open>
  What the guard of the two paging handlers does achieve: a trigger is ignored when the
  render shows the loading flag set.
\<close>

lemma paging_ignored_when_render_shows_loading:
  "isLoading (rendered s) \<Longrightarrow> handleNextPage s = s \<and> handlePrevPage s = s"
  by (auto simp: handleNextPage_def handlePrevPage_def split: option.splits)

text \<open>
  C9. What the code does where the claim asks for the trigger to be ignored. The guard
  reads the loading flag of the last render and nothing else. A next-page trigger on a
  render that shows a cursor and the flag clear is accepted whatever is in flight: it
  starts one more call, adds one to the page number and appends the cursor to the
  stack. A previous-page trigger on a render that shows the flag clear and an entry
  below the top of the stack is accepted in the same way.
\<close>

theorem paging_trigger_accepted_during_fetch:
  "(nextLink (rendered s) = Some l \<and> l \<noteq> [] \<and> \<not> isLoading (rendered s) \<longrightarrow>
      inFlight (handleNextPage s) =
        inFlight s @ [\<lparr>req_url = Some l, req_isNewQuery = False,
                        req_sortConfig = sortConfig (rendered s),
                        req_filters = appliedFilters (rendered s)\<rparr>]
      \<and> currentPage (handleNextPage s) = currentPage s + 1
      \<and> pageUrlHistory (handleNextPage s) = pageUrlHistory s @ [l])
   \<and> (currentPage (rendered s) > 1 \<and> \<not> isLoading (rendered s)
       \<and> pageUrlHistory (rendered s) = hs @ [p, c] \<and> p \<noteq> [] \<longrightarrow>
      inFlight (handlePrevPage s) =
        inFlight s @ [\<lparr>req_url = Some p, req_isNewQuery = False,
                        req_sortConfig = sortConfig (rendered s),
                        req_filters = appliedFilters (rendered s)\<rparr>]
      \<and> currentPage (handlePrevPage s) = currentPage s - 1
      \<and> pageUrlHistory (handlePrevPage s) = hs @ [p])"
proof -
  have a: "inFlight (handleNextPage s) =
        inFlight s @ [\<lparr>req_url = Some l, req_isNewQuery = False,
                        req_sortConfig = sortConfig (rendered s),
                        req_filters = appliedFilters (rendered s)\<rparr>]
      \<and> currentPage (handleNextPage s) = currentPage s + 1
      \<and> pageUrlHistory (handleNextPage s) = pageUrlHistory s @ [l]"
    if "nextLink (rendered s) = Some l" "l \<noteq> []" "\<not> isLoading (rendered s)"
    using handleNextPage_accepted [OF that] by simp
  have b: "inFlight (handlePrevPage s) =
        inFlight s @ [\<lparr>req_url = Some p, req_isNewQuery = False,
                        req_sortConfig = sortConfig (rendered s),
                        req_filters = appliedFilters (rendered s)\<rparr>]
      \<and> currentPage (handlePrevPage s) = currentPage s - 1
      \<and> pageUrlHistory (handlePrevPage s) = hs @ [p]"
    if "currentPage (rendered s) > 1" "\<not> isLoading (rendered s)"
       "pageUrlHistory (rendered s) = hs @ [p, c]" "p \<noteq> []"
    using handlePrevPage_accepted [OF that] by simp
  from a b show ?thesis by blast
qed

theorem paging_trigger_accepted_during_fetch_witness:
  "length (inFlight overlapped) = 1
   \<and> length (inFlight (handleNextPage overlapped)) = 2
   \<and> currentPage (handleNextPage overlapped) = currentPage overlapped + 1
   \<and> length (inFlight (handleNextPage first_page)) = 1
   \<and> length (inFlight (handleNextPage (handleNextPage first_page))) = 2
   \<and> currentPage (handleNextPage (handleNextPage first_page)) = 3"
proof -
  have b: "''B'' \<noteq> []" by simp
  have o: "nextLink (rendered overlapped) = Some ''B''" "\<not> isLoading (rendered overlapped)"
    "length (inFlight overlapped) = 1"
    by code_simp+
  have f: "nextLink (rendered (handleNextPage first_page)) = Some ''B''"
    "\<not> isLoading (rendered (handleNextPage first_page))"
    "length (inFlight (handleNextPage first_page)) = 1"
    "currentPage (handleNextPage first_page) = 2"
    by code_simp+
  from paging_trigger_accepted_during_fetch [of overlapped "''B''"] o b
  have one: "length (inFlight (handleNextPage overlapped)) = 2
             \<and> currentPage (handleNextPage overlapped) = currentPage overlapped + 1"
    by simp
  from paging_trigger_accepted_during_fetch [of "handleNextPage first_page" "''B''"] f b
  have two: "length (inFlight (handleNextPage (handleNextPage first_page))) = 2
             \<and> currentPage (handleNextPage (handleNextPage first_page)) = 3"
    by simp
  from o(3) f(3) one two show ?thesis by blast
qed

text \<open>
  C10. When a call of \<open>fetchPageData\<close> fails, whichever trigger started it, settling it
  leaves the rows, the total count and \<open>nextLink\<close> as the last successful fetch set
  them: the state changes in the error message and the loading flag only (and the call
  is no longer in flight). Taken from its start, such a call changes nothing but these
  two.
\<close>

theorem failed_fetch_frame:
  "(i < length (inFlight s) \<and> request_outcome (inFlight s ! i) tok dat = Inl e \<longrightarrow>
      workflows (settle i tok dat s) = workflows s
      \<and> totalCount (settle i tok dat s) = totalCount s
      \<and> nextLink (settle i tok dat s) = nextLink s
      \<and> settle i tok dat s =
          s\<lparr>error := Some (error_message e), isLoading := False,
            inFlight := take i (inFlight s) @ drop (Suc i) (inFlight s)\<rparr>)
   \<and> (request_outcome \<lparr>req_url = u, req_isNewQuery = q,
         req_sortConfig = sortConfig (rendered s),
         req_filters = appliedFilters (rendered s)\<rparr> tok dat = Inl e \<longrightarrow>
      settle (length (inFlight s)) tok dat (fetchPageData_start u q s)
        = s\<lparr>error := Some (error_message e), isLoading := False\<rparr>)"
proof -
  have a: "workflows (settle i tok dat s) = workflows s
      \<and> totalCount (settle i tok dat s) = totalCount s
      \<and> nextLink (settle i tok dat s) = nextLink s
      \<and> settle i tok dat s =
          s\<lparr>error := Some (error_message e), isLoading := False,
            inFlight := take i (inFlight s) @ drop (Suc i) (inFlight s)\<rparr>"
    if "i < length (inFlight s)" "request_outcome (inFlight s ! i) tok dat = Inl e"
    using settle_failed [OF that] by simp
  have b: "settle (length (inFlight s)) tok dat (fetchPageData_start u q s)
        = s\<lparr>error := Some (error_message e), isLoading := False\<rparr>"
    if f: "request_outcome \<lparr>req_url = u, req_isNewQuery = q,
         req_sortConfig = sortConfig (rendered s),
         req_filters = appliedFilters (rendered s)\<rparr> tok dat = Inl e"
  proof -
    let ?s1 = "fetchPageData_start u q s"
    have i: "length (inFlight s) < length (inFlight ?s1)" by simp
    have "request_outcome (inFlight ?s1 ! length (inFlight s)) tok dat = Inl e"
      using f by simp
    from settle_failed [OF i this] show ?thesis
      by (cases s) (simp add: fetchPageData_start_def)
  qed
  from a b show ?thesis by blast
qed

theorem failed_fetch_frame_witness:
  "settle 0 plain_token_answer failed_answer filter_pending =
     filter_pending\<lparr>error := Some (error_message (Error ''Failed to fetch'')),
       isLoading := False, inFlight := []\<rparr>
   \<and> workflows (settle 0 plain_token_answer failed_answer filter_pending)
       = Some [JString ''row51'']
   \<and> totalCount (settle 0 plain_token_answer failed_answer filter_pending) = 120
   \<and> nextLink (settle 0 plain_token_answer failed_answer filter_pending) = None
   \<and> settle 0 plain_token_answer failed_answer
        (fetchPageData_start (Some ''B'') False first_page)
       = first_page\<lparr>error := Some (error_message (Error ''Failed to fetch'')),
           isLoading := False\<rparr>"
proof -
  have fl: "inFlight filter_pending = [\<lparr>req_url = None, req_isNewQuery = True,
              req_sortConfig = \<lparr>key = Some ''modifiedon'', direction = descending\<rparr>,
              req_filters = \<lparr>search = ''flow'', category = None, status = None\<rparr>\<rparr>]"
    by code_simp
  have st: "workflows filter_pending = Some [JString ''row51'']"
    "totalCount filter_pending = 120" "nextLink filter_pending = None"
    by code_simp+
  have hyp: "0 < length (inFlight filter_pending)
     \<and> request_outcome (inFlight filter_pending ! 0) plain_token_answer failed_answer
         = Inl (Error ''Failed to fetch'')"
    by (simp add: fl rejected_outcome)
  from failed_fetch_frame [of 0 filter_pending plain_token_answer failed_answer
         "Error ''Failed to fetch''"] hyp
  have one: "workflows (settle 0 plain_token_answer failed_answer filter_pending)
          = workflows filter_pending
      \<and> totalCount (settle 0 plain_token_answer failed_answer filter_pending)
          = totalCount filter_pending
      \<and> nextLink (settle 0 plain_token_answer failed_answer filter_pending)
          = nextLink filter_pending
      \<and> settle 0 plain_token_answer failed_answer filter_pending =
          filter_pending\<lparr>error := Some (error_message (Error ''Failed to fetch'')),
            isLoading := False,
            inFlight := take 0 (inFlight filter_pending)
                        @ drop (Suc 0) (inFlight filter_pending)\<rparr>"
    by blast
  from failed_fetch_frame [of _ first_page plain_token_answer failed_answer
         "Error ''Failed to fetch''" "Some ''B''" False] rejected_outcome
  have two: "settle (length (inFlight first_page)) plain_token_answer failed_answer
        (fetchPageData_start (Some ''B'') False first_page)
       = first_page\<lparr>error := Some (error_message (Error ''Failed to fetch'')),
           isLoading := False\<rparr>"
    by blast
  from one two show ?thesis using st by (simp add: fl first_page_state(4))
qed

end
